theory Spec2Isabelle
  imports Complex_Main
begin

section \<open>JavaScript strings\<close>

text \<open>
  A JavaScript string is a sequence of UTF-16 code units. It is modelled as a \<open>string\<close>,
  a list of 8-bit characters read as the code units below 256 (ASCII and Latin-1), which
  covers every character the functions below test for.
\<close>

abbreviation LF :: char where "LF \<equiv> CHR 0x0A"
abbreviation CR :: char where "CR \<equiv> CHR 0x0D"

text \<open>\<open>s.startsWith(p)\<close>\<close>

fun startsWith :: "string \<Rightarrow> string \<Rightarrow> bool" where
  "startsWith s [] = True"
| "startsWith [] (p # ps) = False"
| "startsWith (c # cs) (p # ps) = (c = p \<and> startsWith cs ps)"

text \<open>\<open>s.includes(p)\<close>\<close>

fun includesStr :: "string \<Rightarrow> string \<Rightarrow> bool" where
  "includesStr [] p = (p = [])"
| "includesStr (c # cs) p = (startsWith (c # cs) p \<or> includesStr cs p)"

text \<open>\<open>s.split('\n')\<close>: never empty, the empty string gives one empty line.\<close>

fun splitLines :: "string \<Rightarrow> string list" where
  "splitLines [] = [[]]"
| "splitLines (c # cs) =
     (if c = LF then [] # splitLines cs
      else (case splitLines cs of [] \<Rightarrow> [[c]] | l # ls \<Rightarrow> (c # l) # ls))"

text \<open>\<open>lines.join('\n')\<close>\<close>

fun joinLines :: "string list \<Rightarrow> string" where
  "joinLines [] = []"
| "joinLines [l] = l"
| "joinLines (l # l' # ls) = l @ LF # joinLines (l' # ls)"

text \<open>
  The white space and line terminators that \<open>trim\<close> removes, among the code units
  below 256: TAB, LF, VT, FF, CR, SPACE and NO-BREAK SPACE.
\<close>

definition isWhiteSpace :: "char \<Rightarrow> bool" where
  "isWhiteSpace c \<longleftrightarrow>
     c = CHR 0x09 \<or> c = LF \<or> c = CHR 0x0B \<or> c = CHR 0x0C \<or> c = CR \<or> c = CHR 0x20 \<or> c = CHR 0xA0"

text \<open>\<open>s.trim()\<close>\<close>

definition trim :: "string \<Rightarrow> string" where
  "trim s = rev (dropWhile isWhiteSpace (rev (dropWhile isWhiteSpace s)))"

text \<open>\<open>s.replace(pat, rep)\<close> with a string pattern: the first occurrence only.\<close>

fun replaceFirst :: "string \<Rightarrow> string \<Rightarrow> string \<Rightarrow> string" where
  "replaceFirst pat rep [] = (if pat = [] then rep else [])"
| "replaceFirst pat rep (c # cs) =
     (if startsWith (c # cs) pat then rep @ drop (length pat) (c # cs)
      else c # replaceFirst pat rep cs)"

section \<open>Section parser\<close>

record Section =
  title :: string
  content :: string

text \<open>
  \<open>markdown.split(/(^|\n)### /g)[0]\<close>: the text before the first match of the
  separator. Without the \<open>m\<close> flag \<open>^\<close> matches at the start of the input only, so
  the separator matches \<open>"### "\<close> at index 0 and \<open>"\n### "\<close> anywhere.
\<close>

fun beforeMarker :: "string \<Rightarrow> string" where
  "beforeMarker [] = []"
| "beforeMarker (c # cs) =
     (if startsWith (c # cs) (LF # ''### '') then [] else c # beforeMarker cs)"

definition firstPart :: "string \<Rightarrow> string" where
  "firstPart markdown = (if startsWith markdown ''### '' then [] else beforeMarker markdown)"

text \<open>A heading line: \<open>line.startsWith('### ')\<close>.\<close>

abbreviation isHeading :: "string \<Rightarrow> bool" where
  "isHeading line \<equiv> startsWith line ''### ''"

text \<open>The loop state: \<open>sections\<close>, \<open>currentTitle\<close>, \<open>currentContent\<close>.\<close>

type_synonym parser = "Section list \<times> string \<times> string list"

text \<open>The body of \<open>lines.forEach\<close>.\<close>

fun parseLine :: "parser \<Rightarrow> string \<Rightarrow> parser" where
  "parseLine (sections, currentTitle, currentContent) line =
     (if isHeading line then
        ((if currentContent \<noteq> [] \<or> currentTitle \<noteq> ''Overview''
          then sections @ [\<lparr>title = currentTitle, content = joinLines currentContent\<rparr>]
          else sections),
         trim (replaceFirst ''### '' [] line), [])
      else (sections, currentTitle, currentContent @ [line]))"

text \<open>The flush after the loop.\<close>

fun flushLast :: "parser \<Rightarrow> Section list" where
  "flushLast (sections, currentTitle, currentContent) =
     (if currentContent \<noteq> []
      then sections @ [\<lparr>title = currentTitle, content = joinLines currentContent\<rparr>]
      else sections)"

definition parseSections :: "string \<Rightarrow> Section list" where
  "parseSections markdown =
     (if markdown = [] then []
      else
        let parts0 = firstPart markdown;
            sections =
              (if parts0 \<noteq> [] \<and> length (trim parts0) > 0 \<and> \<not> startsWith markdown ''###''
               then [\<lparr>title = ''Overview'', content = parts0\<rparr>] else [])
        in flushLast (foldl parseLine (sections, ''Overview'', []) (splitLines markdown)))"

section \<open>Export filter\<close>

text \<open>\<open>s.toLowerCase()\<close> on the code units below 256: A to Z and the Latin-1 capitals.\<close>

definition toLowerChar :: "char \<Rightarrow> char" where
  "toLowerChar c =
     (let n = (of_char c :: nat)
      in if (65 \<le> n \<and> n \<le> 90) \<or> (192 \<le> n \<and> n \<le> 222 \<and> n \<noteq> 215)
         then char_of (n + 32) else c)"

definition toLowerCase :: "string \<Rightarrow> string" where
  "toLowerCase s = map toLowerChar s"

text \<open>
  \<open>filteredSections\<close> of the PDF preview: \<open>data.sections.filter(...)\<close> under the two
  toggles \<open>includeJson\<close> and \<open>includeA11y\<close>.
\<close>

definition keepSection :: "bool \<Rightarrow> bool \<Rightarrow> Section \<Rightarrow> bool" where
  "keepSection includeJson includeA11y section =
     (if \<not> includeJson \<and> includesStr (toLowerCase (title section)) ''automation json'' then False
      else if \<not> includeA11y \<and> includesStr (toLowerCase (title section)) ''accessibility'' then False
      else True)"

definition filteredSections :: "bool \<Rightarrow> bool \<Rightarrow> Section list \<Rightarrow> Section list" where
  "filteredSections includeJson includeA11y sections =
     filter (keepSection includeJson includeA11y) sections"

section \<open>Local history\<close>

record HistoryItem =
  itemId :: string
  timestamp :: nat
  task :: string
  result :: string

text \<open>\<open>Date.now().toString()\<close>: the decimal digits of a non-negative integer.\<close>

fun toString :: "nat \<Rightarrow> string" where
  "toString n =
     (if n < 10 then [char_of (48 + n)]
      else toString (n div 10) @ [char_of (48 + n mod 10)])"

declare toString.simps [simp del]

text \<open>
  The component state that \<open>saveToHistory\<close> touches: the \<open>history\<close> list and the list
  stored under the key \<open>uia_history\<close> of the local storage (\<open>None\<close>: no such key). The
  JSON text of the stored list is not modelled.
\<close>

record WebUI =
  history :: "HistoryItem list"
  stored :: "HistoryItem list option"

text \<open>The two readings of the clock, \<open>Date.now()\<close>, are parameters.\<close>

definition saveToHistory :: "nat \<Rightarrow> nat \<Rightarrow> string \<Rightarrow> string \<Rightarrow> WebUI \<Rightarrow> WebUI" where
  "saveToHistory now1 now2 newResult taskPrompt ui =
     (let newItem = \<lparr>itemId = toString now1, timestamp = now2,
                      task = taskPrompt, result = newResult\<rparr>;
          isDuplicate = list_ex (\<lambda>h. task h = taskPrompt \<and> result h = newResult) (history ui)
      in if isDuplicate then ui
         else let updated = take 20 (newItem # history ui)
              in ui\<lparr>history := updated, stored := Some updated\<rparr>)"

section \<open>Analysis service\<close>

text \<open>What a rejected call throws: an object with an optional message and status.\<close>

record ApiError =
  message :: "string option"
  status :: "int option"

text \<open>
  The two remote calls of \<open>ai.models.generateContent\<close> are an oracle from the model name
  to the outcome: the error thrown, or the \<open>text\<close> of the response, which may be absent.
\<close>

type_synonym generateContent = "string \<Rightarrow> ApiError + string option"

definition proModel :: string where
  "proModel = ''gemini-3-pro-preview''"

definition flashModel :: string where
  "flashModel = ''gemini-2.0-flash-exp''"

text \<open>\<open>response.text || "No response generated."\<close>: absent and empty texts are falsy.\<close>

definition responseText :: "string option \<Rightarrow> string" where
  "responseText t = (case t of None \<Rightarrow> ''No response generated.''
                     | Some s \<Rightarrow> if s = [] then ''No response generated.'' else s)"

text \<open>The condition of the fallback, in the order of the source.\<close>

definition isNotFound :: "ApiError \<Rightarrow> bool" where
  "isNotFound primaryError \<longleftrightarrow>
     (case message primaryError of None \<Rightarrow> False | Some m \<Rightarrow> includesStr m ''404'')
     \<or> status primaryError = Some 404
     \<or> (case message primaryError of None \<Rightarrow> False | Some m \<Rightarrow> includesStr m ''not found'')"

text \<open>The outer handler: \<open>throw new Error(err.message || "Unable to process the image.")\<close>.\<close>

definition rethrow :: "ApiError \<Rightarrow> string" where
  "rethrow err = (case message err of None \<Rightarrow> ''Unable to process the image.''
                  | Some m \<Rightarrow> if m = [] then ''Unable to process the image.'' else m)"

text \<open>
  \<open>runUniversalInterface\<close>: \<open>encoded\<close> is the outcome of \<open>fileToBase64\<close>. The result is
  the list of the models called, in order, and either the message of the error thrown
  (\<open>Inl\<close>) or the text returned.
\<close>

definition runUniversalInterface ::
    "ApiError + string \<Rightarrow> generateContent \<Rightarrow> string list \<times> (string + string)" where
  "runUniversalInterface encoded generate =
     (case encoded of
        Inl err \<Rightarrow> ([], Inl (rethrow err))
      | Inr base64 \<Rightarrow>
          (case generate proModel of
             Inr response \<Rightarrow> ([proModel], Inr (responseText response))
           | Inl primaryError \<Rightarrow>
               if isNotFound primaryError then
                 (case generate flashModel of
                    Inr response \<Rightarrow> ([proModel, flashModel], Inr (responseText response))
                  | Inl err \<Rightarrow> ([proModel, flashModel], Inl (rethrow err)))
               else ([proModel], Inl (rethrow primaryError))))"

section \<open>Numbers\<close>


definition pow2 :: "int \<Rightarrow> real" where
  "pow2 e = (if 0 \<le> e then 2 ^ nat e else 1 / 2 ^ nat (- e))"

text \<open>The nearest integer, the even one of two at the same distance.\<close>

definition roundEven :: "real \<Rightarrow> int" where
  "roundEven x =
     (let f = \<lfloor>x\<rfloor>
      in if x - of_int f < 1 / 2 then f
         else if 1 / 2 < x - of_int f then f + 1
         else if even f then f else f + 1)"

text \<open>The binary exponent \<open>e\<close> of a positive number, \<open>2 ^ e \<le> x < 2 ^ (e + 1)\<close>: at
  least 1 by halving, below 1 by doubling.\<close>

function expUp :: "real \<Rightarrow> int" where
  "expUp x = (if x < 2 then 0 else expUp (x / 2) + 1)"
  by pat_completeness auto
termination
proof (relation "measure (\<lambda>x. nat \<lfloor>x\<rfloor>)")
  fix x :: real
  assume big: "\<not> x < 2"
  then have "x / 2 \<le> x - 1" by simp
  then have "\<lfloor>x / 2\<rfloor> \<le> \<lfloor>x - 1\<rfloor>" by (rule floor_mono)
  moreover have "2 \<le> \<lfloor>x\<rfloor>" using big by (simp add: le_floor_iff)
  ultimately show "(x / 2, x) \<in> measure (\<lambda>x. nat \<lfloor>x\<rfloor>)" by simp
qed simp

function expDown :: "real \<Rightarrow> int" where
  "expDown x = (if x \<le> 0 \<or> 1 \<le> x then 0 else expDown (2 * x) - 1)"
  by pat_completeness auto
termination
proof (relation "measure (\<lambda>x. nat \<lceil>1 / x\<rceil>)")
  fix x :: real
  assume "\<not> (x \<le> 0 \<or> 1 \<le> x)"
  then have x: "0 < x" "x < 1" by simp_all
  then have "1 < 1 / x" by simp
  then have c: "2 \<le> \<lceil>1 / x\<rceil>" by (simp add: le_ceiling_iff)
  have "1 / (2 * x) = (1 / x) / 2" by simp
  also have "\<dots> \<le> of_int \<lceil>1 / x\<rceil> / 2" by (simp add: divide_right_mono)
  also have "\<dots> \<le> of_int (\<lceil>1 / x\<rceil> - 1)" using c by simp
  finally have "\<lceil>1 / (2 * x)\<rceil> \<le> \<lceil>1 / x\<rceil> - 1" by (rule ceiling_le)
  with c have "nat \<lceil>1 / (2 * x)\<rceil> < nat \<lceil>1 / x\<rceil>" by linarith
  then show "(2 * x, x) \<in> measure (\<lambda>x. nat \<lceil>1 / x\<rceil>)" by simp
qed simp

declare expUp.simps [simp del] expDown.simps [simp del]

text \<open>
  Rounding to a double: the number is scaled to a significand of 53 bits, between
  \<open>2 ^ 52\<close> and \<open>2 ^ 53\<close>, which is rounded to an integer and scaled back.
\<close>

definition fl :: "real \<Rightarrow> real" where
  "fl x =
     (if x = 0 then 0
      else
        let a = \<bar>x\<bar>;
            e = (if 1 \<le> a then expUp a else expDown a) - 52
        in sgn x * of_int (roundEven (a / pow2 e)) * pow2 e)"

section \<open>PDF export\<close>

text \<open>Lengths are in millimetres.\<close>

definition pageWidth :: real where "pageWidth = 210"
definition pageHeight :: real where "pageHeight = 297"
definition margin :: real where "margin = 20"

text \<open>One call of \<open>pdf.addImage(data, 'JPEG', x, y, w, h)\<close>.\<close>

record Placement =
  imgX :: real
  imgY :: real
  imgW :: real
  imgH :: real

text \<open>The document under construction: its pages, and the number of the current page.\<close>

record Pdf =
  pages :: "Placement list list"
  currentPage :: nat

definition newPdf :: Pdf where
  "newPdf = \<lparr>pages = [[]], currentPage = 1\<rparr>"

definition addPage :: "Pdf \<Rightarrow> Pdf" where
  "addPage pdf = \<lparr>pages = pages pdf @ [[]], currentPage = length (pages pdf) + 1\<rparr>"

definition setPage :: "nat \<Rightarrow> Pdf \<Rightarrow> Pdf" where
  "setPage n pdf = pdf\<lparr>currentPage := n\<rparr>"

definition addImage :: "Placement \<Rightarrow> Pdf \<Rightarrow> Pdf" where
  "addImage p pdf =
     (let i = currentPage pdf - 1
      in if i < length (pages pdf) then pdf\<lparr>pages := (pages pdf)[i := pages pdf ! i @ [p]]\<rparr>
         else pdf)"

text \<open>The dedicated screenshot page: the placement computed from \<open>props.width\<close>, \<open>props.height\<close>.\<close>

definition screenshotPlacement :: "(real \<Rightarrow> real) \<Rightarrow> real \<Rightarrow> real \<Rightarrow> Placement" where
  "screenshotPlacement rnd propsWidth propsHeight =
     (let maxWidth = rnd (pageWidth - rnd (margin * 2));
          maxHeight = rnd (pageHeight - rnd (margin * 2));
          ratio = min (rnd (maxWidth / propsWidth)) (rnd (maxHeight / propsHeight));
          w = rnd (propsWidth * ratio);
          h = rnd (propsHeight * ratio)
      in \<lparr>imgX = rnd (margin + rnd (rnd (maxWidth - w) / 2)), imgY = margin, imgW = w, imgH = h\<rparr>)"

text \<open>The stages that can throw.\<close>

datatype ExportError = RasterizationFailed | DecodingFailed | AssemblyFailed

text \<open>
  Step 3 of \<open>generatePdf\<close>. \<open>hasScreenshot\<close>: the snapshot holds the screenshot image;
  \<open>imgPreview\<close>: \<open>None\<close> when there is no preview, else what \<open>pdf.getImageProperties\<close>
  gives for it, the error thrown or the width and height.
\<close>

definition screenshotPage ::
    "(real \<Rightarrow> real) \<Rightarrow> bool \<Rightarrow> bool \<Rightarrow> (ExportError + real \<times> real) option \<Rightarrow> Pdf
     \<Rightarrow> ExportError + Pdf" where
  "screenshotPage rnd hasScreenshot includeScreenshot imgPreview pdf =
     (if hasScreenshot \<and> includeScreenshot \<and> imgPreview \<noteq> None then
        (case imgPreview of
           Some (Inr (w, h)) \<Rightarrow>
             Inr (setPage 1 (addImage (screenshotPlacement rnd w h) (addPage pdf)))
         | Some (Inl err) \<Rightarrow> Inl err
         | None \<Rightarrow> Inr pdf)
      else Inr pdf)"

text \<open>
  The body of the pagination loop once \<open>imgHeight\<close> is known: the overflow check, the
  placement and the advance of \<open>cursorY\<close>.
\<close>

fun placeBlock :: "(real \<Rightarrow> real) \<Rightarrow> Pdf \<times> real \<Rightarrow> real \<Rightarrow> Pdf \<times> real" where
  "placeBlock rnd (pdf, cursorY) imgHeight =
     (if rnd (cursorY + imgHeight) > rnd (pageHeight - margin)
      then (addImage \<lparr>imgX = margin, imgY = margin, imgW = rnd (pageWidth - rnd (margin * 2)),
                       imgH = imgHeight\<rparr> (addPage pdf),
            rnd (margin + rnd (imgHeight + 5)))
      else (addImage \<lparr>imgX = margin, imgY = cursorY, imgW = rnd (pageWidth - rnd (margin * 2)),
                       imgH = imgHeight\<rparr> pdf,
            rnd (cursorY + rnd (imgHeight + 5))))"

text \<open>
  A block of the snapshot: its \<open>innerText\<close>, and the outcome of rasterizing it and reading
  the image back, the error thrown or the width and height of the image.
\<close>

record Block =
  innerText :: string
  captured :: "ExportError + real \<times> real"

definition imgHeightOf :: "(real \<Rightarrow> real) \<Rightarrow> real \<times> real \<Rightarrow> real" where
  "imgHeightOf rnd props =
     rnd (rnd (snd props * rnd (pageWidth - rnd (margin * 2))) / fst props)"

fun placeBlocks ::
    "(real \<Rightarrow> real) \<Rightarrow> Block list \<Rightarrow> Pdf \<times> real \<Rightarrow> ExportError + Pdf \<times> real" where
  "placeBlocks rnd [] st = Inr st"
| "placeBlocks rnd (block # blocks) st =
     (if trim (innerText block) = [] then placeBlocks rnd blocks st
      else (case captured block of
              Inl err \<Rightarrow> Inl err
            | Inr props \<Rightarrow> placeBlocks rnd blocks (placeBlock rnd st (imgHeightOf rnd props))))"

text \<open>
  What the export can observe and change in the browser: the number of snapshot nodes
  attached to \<open>document.body\<close>, the files saved, the \<open>isGenerating\<close> flag and the alerts
  shown.
\<close>

record Browser =
  snapshotNodes :: nat
  savedFiles :: "(string \<times> Pdf) list"
  isGenerating :: bool
  alerts :: "string list"

record ExportInput =
  printRef :: bool
  hasScreenshot :: bool
  includeScreenshot :: bool
  imgPreview :: "(ExportError + real \<times> real) option"
  blocks :: "Block list"
  dateStr :: string

text \<open>Steps 3 and 4 inside the \<open>try\<close>, up to the call of \<open>pdf.save\<close>.\<close>

definition buildPdf :: "(real \<Rightarrow> real) \<Rightarrow> ExportInput \<Rightarrow> ExportError + Pdf" where
  "buildPdf rnd inp =
     (case screenshotPage rnd (hasScreenshot inp) (includeScreenshot inp) (imgPreview inp) newPdf of
        Inl err \<Rightarrow> Inl err
      | Inr pdf \<Rightarrow>
          (case placeBlocks rnd (blocks inp) (pdf, margin) of
             Inl err \<Rightarrow> Inl err
           | Inr (pdf', cursorY) \<Rightarrow> Inr pdf'))"

text \<open>
  \<open>generatePdf\<close>: the snapshot node is appended at the start of the \<open>try\<close>; the
  \<open>removeChild\<close> is its last statement, after \<open>pdf.save\<close>; the \<open>catch\<close> logs and
  alerts; the \<open>finally\<close> resets \<open>isGenerating\<close>.
\<close>

definition generatePdf :: "(real \<Rightarrow> real) \<Rightarrow> ExportInput \<Rightarrow> Browser \<Rightarrow> Browser" where
  "generatePdf rnd inp br =
     (if \<not> printRef inp then br
      else
        let br1 = br\<lparr>isGenerating := True\<rparr>;
            br2 = br1\<lparr>snapshotNodes := snapshotNodes br1 + 1\<rparr>;
            br3 = (case buildPdf rnd inp of
                     Inr pdf \<Rightarrow>
                       br2\<lparr>savedFiles := savedFiles br2 @ [(''UIA_Summary_'' @ dateStr inp @ ''.pdf'', pdf)],
                           snapshotNodes := snapshotNodes br2 - 1\<rparr>
                   | Inl err \<Rightarrow> br2\<lparr>alerts := alerts br2 @ [''PDF Generation failed'']\<rparr>)
        in br3\<lparr>isGenerating := False\<rparr>)"

section \<open>Plain text from Markdown\<close>







text \<open>\<open>s.replace(/\n{2,}/g, '\n\n')\<close>: a greedy match takes the whole run.\<close>

function collapseNewlines :: "string \<Rightarrow> string" where
  "collapseNewlines [] = []"
| "collapseNewlines (c # cs) =
     (if c = LF \<and> startsWith cs [LF]
      then LF # LF # collapseNewlines (dropWhile (\<lambda>x. x = LF) cs)
      else c # collapseNewlines cs)"
  by pat_completeness auto
termination
  by (relation "measure length") (auto simp: less_Suc_eq_le length_dropWhile_le)


section \<open>Properties of the section parser\<close>

lemma splitLines_nonempty [simp]: "splitLines s \<noteq> []"
  by (induction s) (auto split: list.splits)

lemma joinLines_Cons_Cons: "joinLines ((c # l) # ls) = c # joinLines (l # ls)"
  by (cases ls) simp_all

lemma joinLines_splitLines: "joinLines (splitLines s) = s"
proof (induction s)
  case Nil
  show ?case by simp
next
  case (Cons c cs)
  obtain l ls where split: "splitLines cs = l # ls"
    by (cases "splitLines cs") simp_all
  with Cons show ?case
    by (simp add: joinLines_Cons_Cons)
qed

lemma startsWith_hd_splitLines:
  "LF \<notin> set p \<Longrightarrow> startsWith (hd (splitLines s)) p = startsWith s p"
proof (induction s arbitrary: p)
  case Nil
  show ?case by simp
next
  case (Cons c cs)
  show ?case
  proof (cases p)
    case Nil
    then show ?thesis by simp
  next
    case (Cons q qs)
    with Cons.prems Cons.IH [of qs] show ?thesis
      by (cases "splitLines cs") auto
  qed
qed

lemma tl_splitLines_Cons:
  "tl (splitLines (c # cs)) = (if c = LF then splitLines cs else tl (splitLines cs))"
  by (cases "splitLines cs") simp_all

text \<open>Without a heading after the first line, the separator of \<open>split\<close> matches nowhere
  behind the start.\<close>

lemma beforeMarker_id:
  "\<forall>l \<in> set (tl (splitLines s)). \<not> isHeading l \<Longrightarrow> beforeMarker s = s"
proof (induction s)
  case Nil
  show ?case by simp
next
  case (Cons c cs)
  show ?case
  proof (cases "c = LF")
    case True
    from Cons.prems have all: "\<forall>l \<in> set (splitLines cs). \<not> isHeading l"
      by (simp only: tl_splitLines_Cons True refl if_True)
    then have "\<not> isHeading (hd (splitLines cs))"
      by simp
    then have "\<not> isHeading cs"
      by (simp add: startsWith_hd_splitLines)
    moreover from all have "beforeMarker cs = cs"
      by (intro Cons.IH) (auto dest: list.set_sel(2) [rotated])
    ultimately show ?thesis using True by simp
  next
    case False
    from Cons.prems have "\<forall>l \<in> set (tl (splitLines cs)). \<not> isHeading l"
      by (simp only: tl_splitLines_Cons False if_False)
    then have "beforeMarker cs = cs"
      by (rule Cons.IH)
    with False show ?thesis by simp
  qed
qed

lemma foldl_parseLine_content:
  "\<forall>l \<in> set ls. \<not> isHeading l \<Longrightarrow>
   foldl parseLine (secs, t, c) ls = (secs, t, c @ ls)"
  by (induction ls arbitrary: c) simp_all

text \<open>
  What the parser returns on a non-empty input without heading lines: the section
  \<open>Overview\<close> with the whole input, once when the input is blank or begins with
  \<open>###\<close>, and twice otherwise.
\<close>

lemma parseSections_no_heading:
  assumes "markdown \<noteq> []" and "\<forall>l \<in> set (splitLines markdown). \<not> isHeading l"
  shows "parseSections markdown =
     (if trim markdown \<noteq> [] \<and> \<not> startsWith markdown ''###''
      then [\<lparr>title = ''Overview'', content = markdown\<rparr>,
            \<lparr>title = ''Overview'', content = markdown\<rparr>]
      else [\<lparr>title = ''Overview'', content = markdown\<rparr>])"
proof -
  from assms(2) have "\<not> isHeading (hd (splitLines markdown))"
    by simp
  then have nh: "\<not> isHeading markdown"
    by (simp add: startsWith_hd_splitLines)
  from assms(2) have "beforeMarker markdown = markdown"
    by (intro beforeMarker_id) (auto dest: list.set_sel(2) [rotated])
  with nh have part: "firstPart markdown = markdown"
    by (simp add: firstPart_def)
  show ?thesis
    using assms part
    by (simp add: parseSections_def Let_def foldl_parseLine_content joinLines_splitLines)
qed

text \<open>
  Claim C1. A non-empty input without a heading line should give exactly one section,
  titled \<open>Overview\<close>, that holds the whole input. On the input \<open>hello\<close> the parser
  returns that section twice: the push of the introductory text before the loop and the
  flush after the loop both emit it.
\<close>

theorem parseSections_plain_text_twice:
  "parseSections ''hello'' =
     [\<lparr>title = ''Overview'', content = ''hello''\<rparr>,
      \<lparr>title = ''Overview'', content = ''hello''\<rparr>]"
  by (simp add: parseSections_def firstPart_def trim_def isWhiteSpace_def Let_def)

text \<open>
  Claim C2. The scenario input should give the three sections \<open>Overview\<close>, \<open>Steps\<close>
  and \<open>Notes\<close>. The parser returns four: the section \<open>Overview\<close> with the content
  \<open>Intro text\<close> comes twice, once from the push before the loop and once from the loop
  at the first heading.
\<close>

theorem parseSections_scenario_four_sections:
  "parseSections
     (''Intro text'' @ LF # ''### Steps'' @ LF # ''1. Do X'' @ LF # ''### Notes'' @ LF # ''Some note'') =
     [\<lparr>title = ''Overview'', content = ''Intro text''\<rparr>,
      \<lparr>title = ''Overview'', content = ''Intro text''\<rparr>,
      \<lparr>title = ''Steps'', content = ''1. Do X''\<rparr>,
      \<lparr>title = ''Notes'', content = ''Some note''\<rparr>]"
  by (simp add: parseSections_def firstPart_def trim_def isWhiteSpace_def Let_def)

lemma replaceFirst_prefix:
  "startsWith s p \<Longrightarrow> replaceFirst p [] s = drop (length p) s"
  by (cases s) (auto elim: startsWith.elims)

lemma parseLine_heading:
  "isHeading h \<Longrightarrow>
   parseLine (secs, t, c) h =
     ((if c \<noteq> [] \<or> t \<noteq> ''Overview'' then secs @ [\<lparr>title = t, content = joinLines c\<rparr>] else secs),
      trim (drop 4 h), [])"
  using replaceFirst_prefix [of h "''### ''"] by (simp add: eval_nat_numeral)

text \<open>A section once pushed stays: the loop and the final flush only append.\<close>

lemma parseLine_keeps: "set (fst st) \<subseteq> set (fst (parseLine st l))"
  by (cases st) auto

lemma foldl_parseLine_keeps: "set (fst st) \<subseteq> set (fst (foldl parseLine st ls))"
proof (induction ls arbitrary: st)
  case Nil
  show ?case by simp
next
  case (Cons l ls)
  from parseLine_keeps [of st l] Cons.IH [of "parseLine st l"] show ?case
    by auto
qed

lemma flushLast_keeps: "set (fst st) \<subseteq> set (flushLast st)"
  by (cases st) auto

text \<open>
  From any loop state, a heading line followed by at least one more line gives a section
  with its title and the lines up to the next heading, unless the title is \<open>Overview\<close>
  and the next line is a heading again.
\<close>

lemma flush_after_heading:
  assumes "isHeading h" and "post \<noteq> []"
    and "\<not> isHeading (hd post) \<or> trim (drop 4 h) \<noteq> ''Overview''"
  shows "\<lparr>title = trim (drop 4 h), content = joinLines (takeWhile (\<lambda>l. \<not> isHeading l) post)\<rparr>
         \<in> set (flushLast (foldl parseLine st (h # post)))"
proof -
  let ?T = "trim (drop 4 h)"
  let ?body = "takeWhile (\<lambda>l. \<not> isHeading l) post"
  let ?rest = "dropWhile (\<lambda>l. \<not> isHeading l) post"
  let ?new = "\<lparr>title = ?T, content = joinLines ?body\<rparr>"
  obtain secs t c where st: "st = (secs, t, c)"
    by (cases st)
  obtain secs1 where s1: "parseLine st h = (secs1, ?T, [])"
    using parseLine_heading [OF assms(1), of secs t c] st by simp
  have body: "foldl parseLine (secs1, ?T, []) ?body = (secs1, ?T, ?body)"
    using foldl_parseLine_content [of ?body secs1 ?T "[]"]
    by (auto dest: set_takeWhileD)
  have run: "foldl parseLine st (h # post) = foldl parseLine (secs1, ?T, ?body) ?rest"
  proof -
    have "foldl parseLine st (h # post) = foldl parseLine (secs1, ?T, []) (?body @ ?rest)"
      using s1 by simp
    also have "\<dots> = foldl parseLine (secs1, ?T, ?body) ?rest"
      unfolding foldl_append body ..
    finally show ?thesis .
  qed
  show ?thesis
  proof (cases ?rest)
    case Nil
    then have whole: "?body = post"
      by (metis append_Nil2 takeWhile_dropWhile_id)
    have "foldl parseLine st (h # post) = foldl parseLine (secs1, ?T, ?body) []"
      using run unfolding Nil .
    then have "foldl parseLine st (h # post) = (secs1, ?T, post)"
      by (simp only: foldl_Nil whole)
    then have "flushLast (foldl parseLine st (h # post)) =
        secs1 @ [\<lparr>title = ?T, content = joinLines post\<rparr>]"
      using assms(2) by simp
    then show ?thesis
      by (simp only: whole) simp
  next
    case (Cons h2 rest')
    have h2: "isHeading h2"
      using Cons hd_dropWhile [of "\<lambda>l. \<not> isHeading l" post] by auto
    have cond: "?body \<noteq> [] \<or> ?T \<noteq> ''Overview''"
      using assms(2,3) by (cases post) auto
    then have "?new \<in> set (fst (parseLine (secs1, ?T, ?body) h2))"
      using parseLine_heading [OF h2, of secs1 ?T ?body] by auto
    then have "?new \<in> set (fst (foldl parseLine (parseLine (secs1, ?T, ?body) h2) rest'))"
      using foldl_parseLine_keeps by blast
    then have "?new \<in> set (fst (foldl parseLine st (h # post)))"
      using run Cons by simp
    then show ?thesis
      using flushLast_keeps by blast
  qed
qed

text \<open>
  A heading on the last line is not emitted: the flush after the loop pushes the current
  section only when it has content lines, whatever its title.
\<close>

lemma parseSections_trailing_heading:
  "parseSections ''### A'' = []"
  "parseSections (''Intro'' @ LF # ''### A'') =
     [\<lparr>title = ''Overview'', content = ''Intro''\<rparr>, \<lparr>title = ''Overview'', content = ''Intro''\<rparr>]"
  by (simp_all add: parseSections_def firstPart_def trim_def isWhiteSpace_def Let_def)

text \<open>
  Claim C6, as stated: every heading line produces a section with its trimmed title, also
  without content lines. It fails on a heading \<open>### Overview\<close> directly followed by
  another heading: the guard of the loop emits a section without content lines only when
  its title is not \<open>Overview\<close>, so no section of that title is returned.
\<close>

theorem parseSections_overview_heading_dropped:
  "parseSections (''### Overview'' @ LF # ''### B'' @ LF # ''x'') =
     [\<lparr>title = ''B'', content = ''x''\<rparr>]"
  by (simp add: parseSections_def firstPart_def trim_def isWhiteSpace_def Let_def)

text \<open>
  Claim C6, amended. Let line \<open>i\<close> of the input be a heading line that is not the last
  line. If the next line is not a heading, or the trimmed title is not \<open>Overview\<close>, the
  parser returns a section whose title is the rest of the heading line, trimmed, and whose
  content is the lines after it up to the next heading, joined by newlines. For two
  consecutive headings that content is empty.
\<close>

theorem heading_section_emitted:
  assumes "i < length (splitLines markdown)"
    and "startsWith (splitLines markdown ! i) ''### ''"
    and "Suc i < length (splitLines markdown)"
    and "\<not> startsWith (splitLines markdown ! Suc i) ''### ''
         \<or> trim (drop 4 (splitLines markdown ! i)) \<noteq> ''Overview''"
  shows "\<lparr>title = trim (drop 4 (splitLines markdown ! i)),
          content = joinLines (takeWhile (\<lambda>l. \<not> startsWith l ''### '')
                                 (drop (Suc i) (splitLines markdown)))\<rparr>
         \<in> set (parseSections markdown)"
proof -
  let ?ls = "splitLines markdown"
  let ?post = "drop (Suc i) ?ls"
  have ne: "markdown \<noteq> []"
    using assms(3) by auto
  have post: "?post \<noteq> []"
    using assms(3) by simp
  have hd: "hd ?post = ?ls ! Suc i"
    using assms(3) by (simp add: hd_drop_conv_nth)
  have decomp: "?ls = take i ?ls @ (?ls ! i) # ?post"
    using assms(1) by (simp add: id_take_nth_drop)
  define sections where "sections =
    (if firstPart markdown \<noteq> [] \<and> length (trim (firstPart markdown)) > 0
        \<and> \<not> startsWith markdown ''###''
     then [\<lparr>title = ''Overview'', content = firstPart markdown\<rparr>] else [])"
  have "parseSections markdown = flushLast (foldl parseLine (sections, ''Overview'', []) ?ls)"
    using ne by (simp add: parseSections_def sections_def Let_def)
  also have "\<dots> = flushLast (foldl parseLine
       (foldl parseLine (sections, ''Overview'', []) (take i ?ls)) ((?ls ! i) # ?post))"
    by (subst decomp) (simp only: foldl_append)
  finally show ?thesis
    using flush_after_heading [OF assms(2) post,
        of "foldl parseLine (sections, ''Overview'', []) (take i ?ls)"]
      assms(4) hd by simp
qed

theorem heading_section_emitted_witness:
  "\<lparr>title = ''A'', content = []\<rparr> \<in> set (parseSections (''### A'' @ LF # ''### B'' @ LF # ''x''))
   \<and> \<lparr>title = ''B'', content = ''x''\<rparr> \<in> set (parseSections (''### A'' @ LF # ''### B'' @ LF # ''x''))"
  using heading_section_emitted [of 0 "''### A'' @ LF # ''### B'' @ LF # ''x''"]
    heading_section_emitted [of 1 "''### A'' @ LF # ''### B'' @ LF # ''x''"]
  by (simp add: trim_def isWhiteSpace_def)

section \<open>Properties of the export filter\<close>

text \<open>
  Claim C5. Under every pair of toggles the export filter returns, in the original order,
  exactly the sections that are not excluded, and a section is excluded if and only if
  its lowercased title contains \<open>automation json\<close> while \<open>includeJson\<close> is off, or
  contains \<open>accessibility\<close> while \<open>includeA11y\<close> is off.
\<close>

theorem filteredSections_rule:
  "filteredSections includeJson includeA11y sections =
     filter (\<lambda>s. \<not> ((includesStr (toLowerCase (title s)) ''automation json'' \<and> \<not> includeJson)
                   \<or> (includesStr (toLowerCase (title s)) ''accessibility'' \<and> \<not> includeA11y)))
       sections"
  unfolding filteredSections_def by (rule filter_cong) (auto simp: keepSection_def)

theorem filteredSections_rule_witness:
  "filteredSections False True
     [\<lparr>title = ''3. Automation JSON'', content = ''[]''\<rparr>,
      \<lparr>title = ''4. Accessibility Rewrite'', content = ''a''\<rparr>,
      \<lparr>title = ''1. Page Summary'', content = ''s''\<rparr>] =
     [\<lparr>title = ''4. Accessibility Rewrite'', content = ''a''\<rparr>,
      \<lparr>title = ''1. Page Summary'', content = ''s''\<rparr>]"
  by (subst filteredSections_rule) code_simp

section \<open>Properties of the local history\<close>

lemma saveToHistory_length:
  "length (history ui) \<le> 20 \<Longrightarrow> length (history (saveToHistory n1 n2 r t ui)) \<le> 20"
  by (simp add: saveToHistory_def Let_def)

lemma saveToHistory_fold_length:
  "length (history ui) \<le> 20 \<Longrightarrow>
   length (history (foldl (\<lambda>u (n1, n2, r, t). saveToHistory n1 n2 r t u) ui saves)) \<le> 20"
  by (induction saves arbitrary: ui) (auto simp: saveToHistory_length)

text \<open>
  Claim C7. When the history holds an entry with the same task and the same result,
  \<open>saveToHistory\<close> changes nothing. Otherwise the new entry is put in front and the list
  is cut to its first 20 entries, the newest ones, and the same list is stored. So the
  new list has at most 20 entries; below 20 entries nothing is evicted, and on a full
  history of 20 entries exactly the last, oldest entry is evicted. A history of at most
  20 entries stays so, and every history built from the empty one by saving has at most
  20 entries.
\<close>

theorem saveToHistory_capped:
  "((\<exists>h \<in> set (history ui). task h = t \<and> result h = r) \<longrightarrow> saveToHistory n1 n2 r t ui = ui)
   \<and> (\<not> (\<exists>h \<in> set (history ui). task h = t \<and> result h = r) \<longrightarrow>
        history (saveToHistory n1 n2 r t ui) =
          take 20 (\<lparr>itemId = toString n1, timestamp = n2, task = t, result = r\<rparr> # history ui)
        \<and> stored (saveToHistory n1 n2 r t ui) = Some (history (saveToHistory n1 n2 r t ui))
        \<and> length (history (saveToHistory n1 n2 r t ui)) \<le> 20
        \<and> (length (history ui) < 20 \<longrightarrow>
             history (saveToHistory n1 n2 r t ui) =
               \<lparr>itemId = toString n1, timestamp = n2, task = t, result = r\<rparr> # history ui)
        \<and> (length (history ui) = 20 \<longrightarrow>
             history (saveToHistory n1 n2 r t ui) =
               \<lparr>itemId = toString n1, timestamp = n2, task = t, result = r\<rparr> # butlast (history ui)))
   \<and> (length (history ui) \<le> 20 \<longrightarrow> length (history (saveToHistory n1 n2 r t ui)) \<le> 20)
   \<and> length (history (foldl (\<lambda>u (n1, n2, r, t). saveToHistory n1 n2 r t u)
         \<lparr>history = [], stored = None\<rparr> saves)) \<le> 20"
proof -
  let ?new = "\<lparr>itemId = toString n1, timestamp = n2, task = t, result = r\<rparr>"
  let ?dup = "\<exists>h \<in> set (history ui). task h = t \<and> result h = r"
  have dup: "?dup \<Longrightarrow> saveToHistory n1 n2 r t ui = ui"
    by (simp add: saveToHistory_def list_ex_iff)
  have new: "\<not> ?dup \<Longrightarrow> saveToHistory n1 n2 r t ui =
      ui\<lparr>history := take 20 (?new # history ui), stored := Some (take 20 (?new # history ui))\<rparr>"
    by (auto simp: saveToHistory_def list_ex_iff Let_def)
  have full: "length (history ui) = 20 \<Longrightarrow> take 20 (?new # history ui) = ?new # butlast (history ui)"
    by (simp add: butlast_conv_take numeral_eq_Suc)
  have fold: "length (history (foldl (\<lambda>u (n1, n2, r, t). saveToHistory n1 n2 r t u)
         \<lparr>history = [], stored = None\<rparr> saves)) \<le> 20"
    by (rule saveToHistory_fold_length) simp
  show ?thesis
  proof (cases ?dup)
    case True
    with dup [OF True] fold show ?thesis by simp
  next
    case False
    have "length (history ui) < 20 \<Longrightarrow> take 20 (?new # history ui) = ?new # history ui"
      by simp
    with False new [OF False] full fold show ?thesis by auto
  qed
qed

theorem saveToHistory_capped_witness:
  "history (saveToHistory 1700000000001 1700000000002 ''new result'' ''find the button''
      \<lparr>history = map (\<lambda>i. \<lparr>itemId = toString i, timestamp = i, task = ''find the button'',
                              result = replicate i (CHR ''a'')\<rparr>)
                    [19, 18, 17, 16, 15, 14, 13, 12, 11, 10, 9, 8, 7, 6, 5, 4, 3, 2, 1, 0],
       stored = None\<rparr>) =
     \<lparr>itemId = toString 1700000000001, timestamp = 1700000000002, task = ''find the button'',
      result = ''new result''\<rparr> #
     map (\<lambda>i. \<lparr>itemId = toString i, timestamp = i, task = ''find the button'',
                result = replicate i (CHR ''a'')\<rparr>)
       [19, 18, 17, 16, 15, 14, 13, 12, 11, 10, 9, 8, 7, 6, 5, 4, 3, 2, 1]
   \<and> saveToHistory 5 6 ''aaa'' ''find the button''
        \<lparr>history = map (\<lambda>i. \<lparr>itemId = toString i, timestamp = i, task = ''find the button'',
                                result = replicate i (CHR ''a'')\<rparr>) [3, 2, 1, 0],
         stored = None\<rparr> =
        \<lparr>history = map (\<lambda>i. \<lparr>itemId = toString i, timestamp = i, task = ''find the button'',
                                result = replicate i (CHR ''a'')\<rparr>) [3, 2, 1, 0],
         stored = None\<rparr>"
proof -
  let ?item = "\<lambda>i. \<lparr>itemId = toString i, timestamp = i, task = ''find the button'',
                       result = replicate i (CHR ''a'')\<rparr>"
  let ?full = "\<lparr>history = map ?item
                 [19, 18, 17, 16, 15, 14, 13, 12, 11, 10, 9, 8, 7, 6, 5, 4, 3, 2, 1, 0],
               stored = None\<rparr>"
  let ?few = "\<lparr>history = map ?item [3, 2, 1, 0], stored = None\<rparr>"
  have fresh: "\<not> (\<exists>h \<in> set (history ?full). task h = ''find the button'' \<and> result h = ''new result'')"
    by (simp add: eval_nat_numeral)
  have len: "length (history ?full) = 20"
    by simp
  have dup: "\<exists>h \<in> set (history ?few). task h = ''find the button'' \<and> result h = ''aaa''"
    by (simp add: eval_nat_numeral)
  from fresh len
    saveToHistory_capped [of ?full "''find the button''" "''new result''" 1700000000001 1700000000002 "[]"]
  have evict: "history (saveToHistory 1700000000001 1700000000002 ''new result'' ''find the button'' ?full) =
      \<lparr>itemId = toString 1700000000001, timestamp = 1700000000002, task = ''find the button'',
       result = ''new result''\<rparr> # butlast (history ?full)"
    by blast
  from dup saveToHistory_capped [of ?few "''find the button''" "''aaa''" 5 6 "[]"]
  have same: "saveToHistory 5 6 ''aaa'' ''find the button'' ?few = ?few"
    by blast
  show ?thesis
    unfolding evict same by simp
qed

section \<open>Properties of the analysis service\<close>

text \<open>
  Claim C8. When the image cannot be read no model is called. Otherwise the first call
  goes to the higher-capability model, and the list of calls is that model alone or that
  model followed by the lesser one. The lesser model is called if and only if the first
  call failed with a message that contains \<open>404\<close> or \<open>not found\<close>, or with status 404.
  Any other failure of the first call is thrown on at once, under its own message, after
  that one call; a failure of the second call is thrown on in the same way.
\<close>

theorem runUniversalInterface_fallback:
  "(case encoded of
      Inl err \<Rightarrow> runUniversalInterface encoded generate = ([], Inl (rethrow err))
    | Inr base64 \<Rightarrow>
        (\<exists>rest. fst (runUniversalInterface encoded generate) = proModel # rest)
        \<and> (fst (runUniversalInterface encoded generate) = [proModel, flashModel] \<longleftrightarrow>
             (\<exists>e. generate proModel = Inl e \<and>
                ((\<exists>m. message e = Some m \<and> (includesStr m ''404'' \<or> includesStr m ''not found''))
                 \<or> status e = Some 404)))
        \<and> (fst (runUniversalInterface encoded generate) \<noteq> [proModel, flashModel] \<longrightarrow>
             fst (runUniversalInterface encoded generate) = [proModel])
        \<and> (\<forall>e. generate proModel = Inl e \<and> \<not> isNotFound e \<longrightarrow>
             runUniversalInterface encoded generate = ([proModel], Inl (rethrow e)))
        \<and> (\<forall>e e'. generate proModel = Inl e \<and> isNotFound e \<and> generate flashModel = Inl e' \<longrightarrow>
             runUniversalInterface encoded generate = ([proModel, flashModel], Inl (rethrow e')))
        \<and> (\<forall>e t. generate proModel = Inl e \<and> isNotFound e \<and> generate flashModel = Inr t \<longrightarrow>
             runUniversalInterface encoded generate = ([proModel, flashModel], Inr (responseText t)))
        \<and> (\<forall>t. generate proModel = Inr t \<longrightarrow>
             runUniversalInterface encoded generate = ([proModel], Inr (responseText t))))"
proof (cases encoded)
  case (Inl err)
  then show ?thesis by (simp add: runUniversalInterface_def)
next
  case (Inr base64)
  have nf: "isNotFound e \<longleftrightarrow>
      ((\<exists>m. message e = Some m \<and> (includesStr m ''404'' \<or> includesStr m ''not found''))
       \<or> status e = Some 404)" for e
    by (auto simp: isNotFound_def split: option.splits)
  show ?thesis
  proof (cases "generate proModel")
    case ok: (Inr t)
    with Inr show ?thesis by (simp add: runUniversalInterface_def)
  next
    case err: (Inl e)
    show ?thesis
    proof (cases "isNotFound e")
      case True
      with Inr err nf [of e] show ?thesis
        by (cases "generate flashModel") (simp_all add: runUniversalInterface_def)
    next
      case False
      with Inr err nf [of e] show ?thesis
        by (simp add: runUniversalInterface_def)
    qed
  qed
qed

theorem runUniversalInterface_fallback_witness:
  "runUniversalInterface (Inr ''aGVsbG8='')
     (\<lambda>m. if m = proModel
           then Inl \<lparr>message = Some ''models/gemini-3-pro-preview is not found'', status = None\<rparr>
           else Inr (Some ''### 1. Page Summary'')) =
     ([proModel, flashModel], Inr ''### 1. Page Summary'')
   \<and> runUniversalInterface (Inr ''aGVsbG8='')
     (\<lambda>m. Inl \<lparr>message = Some ''quota exceeded'', status = Some 429\<rparr>) =
     ([proModel], Inl ''quota exceeded'')"
proof -
  let ?down = "\<lparr>message = Some ''models/gemini-3-pro-preview is not found'', status = None\<rparr>"
  let ?quota = "\<lparr>message = Some ''quota exceeded'', status = Some 429\<rparr>"
  let ?g = "\<lambda>m. if m = proModel then Inl ?down else Inr (Some ''### 1. Page Summary'')"
  have ne: "flashModel \<noteq> proModel"
    by (simp add: proModel_def flashModel_def)
  have down: "isNotFound ?down"
    by (simp add: isNotFound_def)
  have quota: "\<not> isNotFound ?quota"
    by (simp add: isNotFound_def)
  have "?g proModel = Inl ?down \<and> isNotFound ?down \<and> ?g flashModel = Inr (Some ''### 1. Page Summary'')"
    using ne down by simp
  with runUniversalInterface_fallback [of "Inr ''aGVsbG8=''" ?g]
  have retry: "runUniversalInterface (Inr ''aGVsbG8='') ?g =
      ([proModel, flashModel], Inr (responseText (Some ''### 1. Page Summary'')))"
    by (simp only: sum.case; blast)
  from quota runUniversalInterface_fallback [of "Inr ''aGVsbG8=''" "\<lambda>m. Inl ?quota"]
  have thrown: "runUniversalInterface (Inr ''aGVsbG8='') (\<lambda>m. Inl ?quota) =
      ([proModel], Inl (rethrow ?quota))"
    by (simp only: sum.case; blast)
  show ?thesis
    unfolding retry thrown by (simp add: responseText_def rethrow_def)
qed

section \<open>Properties of the PDF export\<close>

lemma pages_addImage [simp]: "length (pages (addImage p pdf)) = length (pages pdf)"
  by (simp add: addImage_def Let_def)

lemma pages_addPage [simp]: "length (pages (addPage pdf)) = Suc (length (pages pdf))"
  by (simp add: addPage_def)






text \<open>
  When every block with text is captured, the loop of \<open>generatePdf\<close> is the iteration of
  \<open>placeBlock\<close> over the heights of those blocks.
\<close>

lemma placeBlocks_foldl:
  assumes "\<forall>b \<in> set bs. trim (innerText b) \<noteq> [] \<longrightarrow> (\<exists>props. captured b = Inr props)"
  shows "placeBlocks rnd bs st =
     Inr (foldl (placeBlock rnd) st
            (map (\<lambda>b. imgHeightOf rnd (projr (captured b)))
               (filter (\<lambda>b. trim (innerText b) \<noteq> []) bs)))"
  using assms by (induction bs arbitrary: st) auto



text \<open>What \<open>generatePdf\<close> leaves behind when the build of the document fails, and when it
  succeeds.\<close>

lemma generatePdf_failure:
  assumes "printRef inp" and "buildPdf rnd inp = Inl err"
  shows "savedFiles (generatePdf rnd inp br) = savedFiles br"
    and "snapshotNodes (generatePdf rnd inp br) = snapshotNodes br + 1"
  using assms by (simp_all add: generatePdf_def)

lemma generatePdf_success:
  assumes "printRef inp" and "buildPdf rnd inp = Inr pdf"
  shows "savedFiles (generatePdf rnd inp br) =
           savedFiles br @ [(''UIA_Summary_'' @ dateStr inp @ ''.pdf'', pdf)]"
    and "snapshotNodes (generatePdf rnd inp br) = snapshotNodes br"
  using assms by (simp_all add: generatePdf_def)

text \<open>
  Claim C4. Every export should remove the snapshot node from \<open>document.body\<close> before it
  returns, also when a stage throws, and save no file on failure. When the rasterization
  of a block throws, no file is saved and the alert is shown, but the snapshot node stays
  attached: \<open>removeChild\<close> is the last statement of the \<open>try\<close> block, and neither the
  \<open>catch\<close> nor the \<open>finally\<close> removes the node.
\<close>

theorem generatePdf_failure_leaves_snapshot:
  "generatePdf fl
     \<lparr>printRef = True, hasScreenshot = False, includeScreenshot = True, imgPreview = None,
      blocks = [\<lparr>innerText = ''Summary'', captured = Inl RasterizationFailed\<rparr>],
      dateStr = ''2025-01-01''\<rparr>
     \<lparr>snapshotNodes = 0, savedFiles = [], isGenerating = False, alerts = []\<rparr>
   = \<lparr>snapshotNodes = 1, savedFiles = [], isGenerating = False,
      alerts = [''PDF Generation failed'']\<rparr>"
  by (simp add: generatePdf_def buildPdf_def screenshotPage_def trim_def isWhiteSpace_def)

section \<open>Properties of the rounding to a double\<close>
















lemma expDown_1: "1 \<le> x \<Longrightarrow> expDown x = 0"
  by (simp add: expDown.simps [of x])

lemma expDown_2: "0 < x \<Longrightarrow> x < 1 \<Longrightarrow> expDown x = expDown (2 * x) - 1"
  by (simp add: expDown.simps [of x])

lemma fl_tenth: "fl (1 / 10) = 3602879701896397 / 2 ^ 55"
proof -
  have "expDown (1 / 10) = - 4" by (simp add: expDown_2 expDown_1)
  then show ?thesis by (simp add: fl_def pow2_def roundEven_def Let_def)
qed

lemma fl_third: "fl (- (1 / 3)) = - (6004799503160661 / 2 ^ 54)"
proof -
  have "expDown (1 / 3) = - 2" by (simp add: expDown_2 expDown_1)
  then show ?thesis by (simp add: fl_def pow2_def roundEven_def Let_def)
qed







section \<open>Properties of the screenshot page\<close>






section \<open>Properties of the plain-text conversion\<close>




















lemma collapseNewlines_single:
  assumes "ys = [] \<or> hd ys \<noteq> LF"
  shows "collapseNewlines (LF # ys) = LF # collapseNewlines ys"
  using assms by (cases ys) auto











end
